theory Spec2Isabelle
  imports Main "HOL-Library.Char_ord" "HOL-Library.List_Lexorder"
begin

unbundle bit_operations_syntax

section \<open>OBM, the object-bit mapper (obm.py): the embedding\<close>

text \<open>
  Python integers are unbounded, so every integer of the source is an \<open>int\<close>.
  On \<open>int\<close>, \<open>AND\<close> and \<open>OR\<close> are the two's complement operations of Python's
  \<^verbatim>\<open>&\<close> and \<^verbatim>\<open>|\<close>, and \<open>drop_bit n k = k div 2 ^ n\<close> rounds towards minus
  infinity as Python's \<^verbatim>\<open>>>\<close> does. Every exception of the source is a value of
  \<open>error\<close>, carrying the message the source formats.
\<close>

datatype error =
    OverflowError string
  | ValueError string
  | NotImplementedError
  | AttributeError string

text \<open>\<^verbatim>\<open>class Config\<close>: the process-wide strictness flag, passed explicitly.\<close>

record Config =
  error_check_overflow :: bool

subsection \<open>Python's shifts and formatting\<close>

text \<open>
  \<^verbatim>\<open>a << n\<close> and \<^verbatim>\<open>a >> n\<close> raise \<^verbatim>\<open>ValueError("negative shift count")\<close>
  when \<open>n\<close> is negative. The digit functions are applied below their base only.
\<close>

definition py_lshift :: "int \<Rightarrow> int \<Rightarrow> error + int" where
  "py_lshift a n =
     (if n < 0 then Inl (ValueError ''negative shift count'')
      else Inr (push_bit (nat n) a))"

definition py_rshift :: "int \<Rightarrow> int \<Rightarrow> error + int" where
  "py_rshift a n =
     (if n < 0 then Inl (ValueError ''negative shift count'')
      else Inr (drop_bit (nat n) a))"

definition dec_digit :: "nat \<Rightarrow> char" where
  "dec_digit d = ''0123456789'' ! d"

definition hex_digit :: "nat \<Rightarrow> char" where
  "hex_digit d = ''0123456789ABCDEF'' ! d"

function dec_nat :: "nat \<Rightarrow> string" where
  "dec_nat n = (if n < 10 then [dec_digit n] else dec_nat (n div 10) @ [dec_digit (n mod 10)])"
  by pat_completeness auto
termination
  by (relation "measure id") auto

function hex_nat :: "nat \<Rightarrow> string" where
  "hex_nat n = (if n < 16 then [hex_digit n] else hex_nat (n div 16) @ [hex_digit (n mod 16)])"
  by pat_completeness auto
termination
  by (relation "measure id") auto

declare dec_nat.simps [simp del] hex_nat.simps [simp del]

text \<open>\<^verbatim>\<open>"{}".format(k)\<close> for an integer \<open>k\<close>: its decimal digits, with a sign if negative.\<close>

definition str_int :: "int \<Rightarrow> string" where
  "str_int k = (if k < 0 then CHR ''-'' # dec_nat (nat (- k)) else dec_nat (nat k))"

text \<open>
  \<^verbatim>\<open>"{:02X}".format(k)\<close>: upper-case hexadecimal digits, padded with zeros after the
  sign to a total width of at least two characters.
\<close>

definition format_02X :: "int \<Rightarrow> string" where
  "format_02X k =
     (if k < 0 then CHR ''-'' # hex_nat (nat (- k))
      else if k < 16 then CHR ''0'' # hex_nat (nat k)
      else hex_nat (nat k))"

subsection \<open>\<^verbatim>\<open>class BitFieldPartition\<close>\<close>

text \<open>
  The fields of the source are \<^verbatim>\<open>name\<close>, \<^verbatim>\<open>start_byte\<close>, \<^verbatim>\<open>start_bit\<close>,
  \<^verbatim>\<open>length\<close> and \<^verbatim>\<open>_value\<close>; the last two carry a suffix here.
\<close>

record BitFieldPartition =
  name :: string
  start_byte :: int
  start_bit :: int
  length_p :: int
  value_p :: int

text \<open>\<^verbatim>\<open>BitFieldPartition.__init__(start_byte, start_bit, length, value=0x0)\<close>\<close>

definition BitFieldPartition_init :: "int \<Rightarrow> int \<Rightarrow> int \<Rightarrow> int \<Rightarrow> BitFieldPartition" where
  "BitFieldPartition_init sb sbit len v =
     \<lparr>name = '''', start_byte = sb, start_bit = sbit, length_p = len, value_p = v\<rparr>"

text \<open>\<^verbatim>\<open>mask\<close>: \<^verbatim>\<open>(1 << self.length) - 1\<close>\<close>

definition mask_p :: "BitFieldPartition \<Rightarrow> error + int" where
  "mask_p p = (case py_lshift 1 (length_p p) of Inl e \<Rightarrow> Inl e | Inr x \<Rightarrow> Inr (x - 1))"

text \<open>\<^verbatim>\<open>shift\<close>: \<^verbatim>\<open>(self.start_byte * 8) + self.start_bit\<close>\<close>

definition shift_p :: "BitFieldPartition \<Rightarrow> int" where
  "shift_p p = (start_byte p * 8) + start_bit p"

text \<open>
  The setter of \<^verbatim>\<open>value\<close>. Python's \<^verbatim>\<open>and\<close> does not evaluate the shift when the
  flag is off.
\<close>

definition set_value :: "Config \<Rightarrow> BitFieldPartition \<Rightarrow> int \<Rightarrow> error + BitFieldPartition" where
  "set_value cfg p v =
     (if error_check_overflow cfg then
        (case py_rshift v (length_p p) of
           Inl e \<Rightarrow> Inl e
         | Inr s \<Rightarrow>
             if s > 0 then
               Inl (OverflowError (name p @ '': More than '' @ str_int (length_p p)
                      @ '' bits of data (0x'' @ format_02X v @ '')''))
             else Inr (p\<lparr>value_p := v\<rparr>))
      else Inr (p\<lparr>value_p := v\<rparr>))"

text \<open>\<^verbatim>\<open>masked_value\<close>: \<^verbatim>\<open>self.value & self.mask\<close>\<close>

definition masked_value :: "BitFieldPartition \<Rightarrow> error + int" where
  "masked_value p = (case mask_p p of Inl e \<Rightarrow> Inl e | Inr m \<Rightarrow> Inr (value_p p AND m))"

text \<open>\<^verbatim>\<open>prefixed_name\<close>: \<^verbatim>\<open>"{}.{}:{} {}".format(start_byte, start_bit, length, name)\<close>\<close>

definition prefixed_name :: "BitFieldPartition \<Rightarrow> string" where
  "prefixed_name p =
     str_int (start_byte p) @ ''.'' @ str_int (start_bit p) @ '':'' @ str_int (length_p p)
       @ '' '' @ name p"

text \<open>
  \<^verbatim>\<open>parse\<close>: \<^verbatim>\<open>self._value = (data >> self.shift) & self.mask\<close>, written to the field
  directly and not through the setter.
\<close>

definition parse :: "BitFieldPartition \<Rightarrow> int \<Rightarrow> error + BitFieldPartition" where
  "parse p data =
     (case py_rshift data (shift_p p) of
        Inl e \<Rightarrow> Inl e
      | Inr s \<Rightarrow> (case mask_p p of Inl e \<Rightarrow> Inl e | Inr m \<Rightarrow> Inr (p\<lparr>value_p := s AND m\<rparr>)))"

subsection \<open>\<^verbatim>\<open>class BitField\<close>\<close>

text \<open>
  The record of an instance: \<^verbatim>\<open>name\<close>, \<^verbatim>\<open>nbytes\<close> and the list \<^verbatim>\<open>partitions\<close>.
  The partitions of the list are objects of their own (each a deep copy made by the
  constructor), so updating each in place is a map over the list.
\<close>

record BitField =
  name_bf :: string
  nbytes :: int
  partitions :: "BitFieldPartition list"

text \<open>\<^verbatim>\<open>nbits\<close>: \<^verbatim>\<open>self.nbytes * 8\<close>\<close>

definition nbits :: "BitField \<Rightarrow> int" where
  "nbits bf = nbytes bf * 8"

text \<open>\<^verbatim>\<open>mask\<close>: \<^verbatim>\<open>(1 << self.nbits) - 1\<close>\<close>

definition mask_bf :: "BitField \<Rightarrow> error + int" where
  "mask_bf bf = (case py_lshift 1 (nbits bf) of Inl e \<Rightarrow> Inl e | Inr x \<Rightarrow> Inr (x - 1))"

text \<open>
  The loop of \<^verbatim>\<open>data_int\<close>:
  \<^verbatim>\<open>data = data | (partition.masked_value << partition.shift)\<close>
\<close>

fun pack_loop :: "BitFieldPartition list \<Rightarrow> int \<Rightarrow> error + int" where
  "pack_loop [] data = Inr data"
| "pack_loop (p # ps) data =
     (case masked_value p of
        Inl e \<Rightarrow> Inl e
      | Inr mv \<Rightarrow>
          (case py_lshift mv (shift_p p) of
             Inl e \<Rightarrow> Inl e
           | Inr x \<Rightarrow> pack_loop ps (data OR x)))"

text \<open>
  \<^verbatim>\<open>data_int\<close>: the loop, the overflow check (the shift is not evaluated when the flag
  is off), then \<^verbatim>\<open>data & self.mask\<close>.
\<close>

definition data_int :: "Config \<Rightarrow> BitField \<Rightarrow> error + int" where
  "data_int cfg bf =
     (case pack_loop (partitions bf) 0 of
        Inl e \<Rightarrow> Inl e
      | Inr data \<Rightarrow>
          if error_check_overflow cfg then
            (case py_rshift data (nbits bf) of
               Inl e \<Rightarrow> Inl e
             | Inr s \<Rightarrow>
                 if s > 0 then
                   Inl (OverflowError (name_bf bf @ '': More than '' @ str_int (nbits bf)
                          @ '' bits of data''))
                 else (case mask_bf bf of Inl e \<Rightarrow> Inl e | Inr m \<Rightarrow> Inr (data AND m)))
          else (case mask_bf bf of Inl e \<Rightarrow> Inl e | Inr m \<Rightarrow> Inr (data AND m)))"

text \<open>
  \<^verbatim>\<open>data_ints\<close>: \<^verbatim>\<open>[(data >> (i * 8)) & 0xFF for i in range(0, self.nbytes)]\<close>.
  \<^verbatim>\<open>range(0, n)\<close> is the list \<open>[0..n - 1]\<close>, empty when \<open>n \<le> 0\<close>; its members are
  not negative, so the shift by \<open>i * 8\<close> does not raise.
\<close>

definition data_ints :: "Config \<Rightarrow> BitField \<Rightarrow> error + int list" where
  "data_ints cfg bf =
     (case data_int cfg bf of
        Inl e \<Rightarrow> Inl e
      | Inr data \<Rightarrow> Inr (map (\<lambda>i. drop_bit (nat (i * 8)) data AND 0xFF) [0..nbytes bf - 1]))"

text \<open>
  \<^verbatim>\<open>data_bytes\<close>: \<^verbatim>\<open>bytes(self.data_ints)\<close>, which raises a \<^verbatim>\<open>ValueError\<close> on a
  member outside \<^verbatim>\<open>range(0, 256)\<close>.
\<close>

definition data_bytes :: "Config \<Rightarrow> BitField \<Rightarrow> error + int list" where
  "data_bytes cfg bf =
     (case data_ints cfg bf of
        Inl e \<Rightarrow> Inl e
      | Inr xs \<Rightarrow>
          if list_all (\<lambda>x. 0 \<le> x \<and> x < 256) xs then Inr xs
          else Inl (ValueError ''bytes must be in range(0, 256)''))"

text \<open>The loop of \<^verbatim>\<open>parse_data_int\<close>: \<^verbatim>\<open>partition.parse(data)\<close> for each partition.\<close>

fun parse_loop :: "BitFieldPartition list \<Rightarrow> int \<Rightarrow> error + BitFieldPartition list" where
  "parse_loop [] data = Inr []"
| "parse_loop (p # ps) data =
     (case parse p data of
        Inl e \<Rightarrow> Inl e
      | Inr p' \<Rightarrow>
          (case parse_loop ps data of Inl e \<Rightarrow> Inl e | Inr ps' \<Rightarrow> Inr (p' # ps')))"

definition parse_data_int :: "BitField \<Rightarrow> int \<Rightarrow> error + BitField" where
  "parse_data_int bf data =
     (case parse_loop (partitions bf) data of
        Inl e \<Rightarrow> Inl e
      | Inr ps \<Rightarrow> Inr (bf\<lparr>partitions := ps\<rparr>))"

text \<open>
  \<^verbatim>\<open>partition(name)\<close>: the first partition of the list with that name, a
  \<^verbatim>\<open>ValueError\<close> when the loop ends without one. The body assigns nothing, so the
  embedding is a function of the record that returns no new record.
\<close>

fun partition_loop :: "BitFieldPartition list \<Rightarrow> string \<Rightarrow> error + BitFieldPartition" where
  "partition_loop [] n = Inl (ValueError (''Partition '' @ n @ '' not found''))"
| "partition_loop (p # ps) n = (if name p = n then Inr p else partition_loop ps n)"

definition partition_bf :: "BitField \<Rightarrow> string \<Rightarrow> error + BitFieldPartition" where
  "partition_bf bf n = partition_loop (partitions bf) n"

text \<open>
  \<^verbatim>\<open>partition_map(prefix)\<close>: a dictionary comprehension over the partitions, in list
  order, a later entry replacing an earlier one under the same key.
\<close>

fun map_loop :: "bool \<Rightarrow> int \<Rightarrow> BitFieldPartition list \<Rightarrow> (string \<rightharpoonup> int)
    \<Rightarrow> error + (string \<rightharpoonup> int)" where
  "map_loop prefix data [] m = Inr m"
| "map_loop prefix data (p # ps) m =
     (case py_rshift data (shift_p p) of
        Inl e \<Rightarrow> Inl e
      | Inr s \<Rightarrow>
          (case mask_p p of
             Inl e \<Rightarrow> Inl e
           | Inr k \<Rightarrow>
               map_loop prefix data ps
                 (m((if prefix then prefixed_name p else name p) \<mapsto> s AND k))))"

definition partition_map :: "Config \<Rightarrow> BitField \<Rightarrow> bool \<Rightarrow> error + (string \<rightharpoonup> int)" where
  "partition_map cfg bf prefix =
     (case data_int cfg bf of
        Inl e \<Rightarrow> Inl e
      | Inr data \<Rightarrow> map_loop prefix data (partitions bf) Map.empty)"


subsection \<open>Classes and construction\<close>

text \<open>
  The classes that take part in construction: the metaclass \<^verbatim>\<open>type\<close>, \<^verbatim>\<open>BitField\<close>,
  its five fixed-width subclasses, and a class declared by a user: its name, its base
  and the partition templates bound in its body, as (attribute name, template) in
  declaration order.
\<close>

datatype pyclass =
    type_cls
  | BitField_cls
  | Int8BitField_cls
  | Int16BitField_cls
  | Int32BitField_cls
  | Int64BitField_cls
  | Int128BitField_cls
  | user_cls string pyclass "(string \<times> BitFieldPartition) list"

text \<open>
  \<^verbatim>\<open>C.__class__\<close> for a class object \<open>C\<close>: none of these classes names a metaclass,
  so each is an instance of \<^verbatim>\<open>type\<close>.
\<close>

definition class_of :: "pyclass \<Rightarrow> pyclass" where
  "class_of c = type_cls"

text \<open>
  The names bound to templates along the method resolution order, and the lookup of one
  of them: the most derived class first, and the last binding of a body when a body
  binds a name twice.
\<close>

fun class_names :: "pyclass \<Rightarrow> string list" where
  "class_names (user_cls n base ds) = map fst ds @ class_names base"
| "class_names c = []"

fun class_lookup :: "pyclass \<Rightarrow> string \<Rightarrow> BitFieldPartition option" where
  "class_lookup (user_cls n base ds) x =
     (case map_of (rev ds) x of Some t \<Rightarrow> Some t | None \<Rightarrow> class_lookup base x)"
| "class_lookup c x = None"

text \<open>
  The attributes of \<^verbatim>\<open>BitField\<close> and of its instances. The names that \<^verbatim>\<open>object\<close>
  gives (all of the form \<^verbatim>\<open>__x__\<close>) are left out: none is bound to a partition and
  reading none of them raises.
\<close>

definition BitField_attrs :: "string list" where
  "BitField_attrs =
     [''data_bytes'', ''data_int'', ''data_ints'', ''mask'', ''name'', ''nbits'', ''nbytes'',
      ''parse_data_int'', ''partition'', ''partition_map'', ''partitions'',
      ''printable_partition_map'']"

text \<open>
  \<^verbatim>\<open>dir(self)\<close>: the attribute names without repetition, sorted; Python orders strings
  by code point, lexicographically, as the order on \<open>string\<close> does here.
\<close>

definition dir_self :: "pyclass \<Rightarrow> string list" where
  "dir_self cls = sort (remdups (BitField_attrs @ class_names cls))"

text \<open>
  One round of the loop of \<^verbatim>\<open>BitField.__init__\<close>: \<^verbatim>\<open>value = getattr(self, name)\<close>,
  then the copy when the value is a partition. The instance attributes \<^verbatim>\<open>name\<close>,
  \<^verbatim>\<open>nbytes\<close> and \<^verbatim>\<open>partitions\<close> hide a template of the same name; reading one of
  the properties of \<^verbatim>\<open>BitField\<close> evaluates it on the partitions appended so far, and
  what it raises leaves the constructor. The embedding is for classes that bind no
  template to an attribute name of \<^verbatim>\<open>BitField\<close>.
\<close>

definition init_step :: "Config \<Rightarrow> pyclass \<Rightarrow> BitField \<Rightarrow> string \<Rightarrow> error + BitField" where
  "init_step cfg cls self x =
     (if x = ''name'' \<or> x = ''nbytes'' \<or> x = ''partitions'' then Inr self
      else
        (case class_lookup cls x of
           Some t \<Rightarrow> Inr (self\<lparr>partitions := partitions self @ [t\<lparr>name := x\<rparr>]\<rparr>)
         | None \<Rightarrow>
             if x = ''data_bytes'' then
               (case data_bytes cfg self of Inl e \<Rightarrow> Inl e | Inr v \<Rightarrow> Inr self)
             else if x = ''data_int'' then
               (case data_int cfg self of Inl e \<Rightarrow> Inl e | Inr v \<Rightarrow> Inr self)
             else if x = ''data_ints'' then
               (case data_ints cfg self of Inl e \<Rightarrow> Inl e | Inr v \<Rightarrow> Inr self)
             else if x = ''mask'' then
               (case mask_bf self of Inl e \<Rightarrow> Inl e | Inr v \<Rightarrow> Inr self)
             else Inr self))"

fun init_loop :: "Config \<Rightarrow> pyclass \<Rightarrow> string list \<Rightarrow> BitField \<Rightarrow> error + BitField" where
  "init_loop cfg cls [] self = Inr self"
| "init_loop cfg cls (x # xs) self =
     (case init_step cfg cls self x of
        Inl e \<Rightarrow> Inl e
      | Inr self' \<Rightarrow> init_loop cfg cls xs self')"

text \<open>
  \<^verbatim>\<open>BitField.__init__(self, name, nbytes)\<close>, with \<open>self_cls\<close> for
  \<^verbatim>\<open>self.__class__\<close>. The guard compares it with \<^verbatim>\<open>BitField.__class__\<close>.
\<close>

definition BitField_init :: "Config \<Rightarrow> pyclass \<Rightarrow> string \<Rightarrow> int \<Rightarrow> error + BitField" where
  "BitField_init cfg self_cls nm nb =
     (if self_cls = class_of BitField_cls then Inl NotImplementedError
      else init_loop cfg self_cls (dir_self self_cls)
             \<lparr>name_bf = nm, nbytes = nb, partitions = []\<rparr>)"

definition Int8BitField_init :: "Config \<Rightarrow> pyclass \<Rightarrow> string \<Rightarrow> error + BitField" where
  "Int8BitField_init cfg self_cls nm =
     (if self_cls = class_of Int8BitField_cls then Inl NotImplementedError
      else BitField_init cfg self_cls nm 1)"

definition Int16BitField_init :: "Config \<Rightarrow> pyclass \<Rightarrow> string \<Rightarrow> error + BitField" where
  "Int16BitField_init cfg self_cls nm =
     (if self_cls = class_of Int16BitField_cls then Inl NotImplementedError
      else BitField_init cfg self_cls nm 2)"

definition Int32BitField_init :: "Config \<Rightarrow> pyclass \<Rightarrow> string \<Rightarrow> error + BitField" where
  "Int32BitField_init cfg self_cls nm =
     (if self_cls = class_of Int32BitField_cls then Inl NotImplementedError
      else BitField_init cfg self_cls nm 4)"

definition Int64BitField_init :: "Config \<Rightarrow> pyclass \<Rightarrow> string \<Rightarrow> error + BitField" where
  "Int64BitField_init cfg self_cls nm =
     (if self_cls = class_of Int64BitField_cls then Inl NotImplementedError
      else BitField_init cfg self_cls nm 8)"

definition Int128BitField_init :: "Config \<Rightarrow> pyclass \<Rightarrow> string \<Rightarrow> error + BitField" where
  "Int128BitField_init cfg self_cls nm =
     (if self_cls = class_of Int128BitField_cls then Inl NotImplementedError
      else BitField_init cfg self_cls nm 16)"

text \<open>
  \<^verbatim>\<open>bf.n.value = v\<close> for an attribute name \<open>n\<close>. The constructor binds the instance
  attribute \<open>n\<close> to the very partition it appends to the list, so the assignment goes
  through the setter of the list member named \<open>n\<close>; there is no such attribute when the
  list has no such member.
\<close>

fun setattr_loop :: "Config \<Rightarrow> BitFieldPartition list \<Rightarrow> string \<Rightarrow> int
    \<Rightarrow> error + BitFieldPartition list" where
  "setattr_loop cfg [] n v = Inl (AttributeError n)"
| "setattr_loop cfg (p # ps) n v =
     (if name p = n then
        (case set_value cfg p v of Inl e \<Rightarrow> Inl e | Inr p' \<Rightarrow> Inr (p' # ps))
      else
        (case setattr_loop cfg ps n v of Inl e \<Rightarrow> Inl e | Inr ps' \<Rightarrow> Inr (p # ps')))"

definition setattr_value :: "Config \<Rightarrow> BitField \<Rightarrow> string \<Rightarrow> int \<Rightarrow> error + BitField" where
  "setattr_value cfg bf n v =
     (case setattr_loop cfg (partitions bf) n v of
        Inl e \<Rightarrow> Inl e
      | Inr ps \<Rightarrow> Inr (bf\<lparr>partitions := ps\<rparr>))"

fun setattr_values :: "Config \<Rightarrow> BitField \<Rightarrow> (string \<times> int) list \<Rightarrow> error + BitField" where
  "setattr_values cfg bf [] = Inr bf"
| "setattr_values cfg bf ((n, v) # nvs) =
     (case setattr_value cfg bf n v of
        Inl e \<Rightarrow> Inl e
      | Inr bf' \<Rightarrow> setattr_values cfg bf' nvs)"

subsection \<open>The joystick message of test.py\<close>

text \<open>\<^verbatim>\<open>class ExtendedJoystickMessage(Int64BitField)\<close>, its templates in declaration order.\<close>

definition ExtendedJoystickMessage_decls :: "(string \<times> BitFieldPartition) list" where
  "ExtendedJoystickMessage_decls =
     [(''a1NeutralPositionStatus'', BitFieldPartition_init 0 0 2 0),
      (''a1NegativePositionStatus'', BitFieldPartition_init 0 2 2 0),
      (''a1PositivePositionStatus'', BitFieldPartition_init 0 4 2 0),
      (''a1Position'', BitFieldPartition_init 0 6 10 0),
      (''a2NeutralPositionStatus'', BitFieldPartition_init 2 0 2 0),
      (''a2NegativePositionStatus'', BitFieldPartition_init 2 2 2 0),
      (''a2PositivePositionStatus'', BitFieldPartition_init 2 4 2 0),
      (''a2Position'', BitFieldPartition_init 2 6 10 0),
      (''a3NeutralPositionStatus'', BitFieldPartition_init 4 0 2 0),
      (''a3NegativePositionStatus'', BitFieldPartition_init 4 2 2 0),
      (''a3PositivePositionStatus'', BitFieldPartition_init 4 4 2 0),
      (''a3Position'', BitFieldPartition_init 4 6 10 0),
      (''axisPadding'', BitFieldPartition_init 6 0 2 0),
      (''a3DetentPositionStatus'', BitFieldPartition_init 6 2 2 0),
      (''a2DetentPositionStatus'', BitFieldPartition_init 6 4 2 0),
      (''a1DetentPositionStatus'', BitFieldPartition_init 6 6 2 0),
      (''b4'', BitFieldPartition_init 7 0 2 0),
      (''b3'', BitFieldPartition_init 7 2 2 0),
      (''b2'', BitFieldPartition_init 7 4 2 0),
      (''b1'', BitFieldPartition_init 7 6 2 0)]"

definition ExtendedJoystickMessage_cls :: pyclass where
  "ExtendedJoystickMessage_cls =
     user_cls ''ExtendedJoystickMessage'' Int64BitField_cls ExtendedJoystickMessage_decls"

text \<open>
  \<^verbatim>\<open>ExtendedJoystickMessage.__init__(self)\<close>:
  \<^verbatim>\<open>super().__init__(self.__class__.__name__)\<close>
\<close>

definition ExtendedJoystickMessage_init :: "Config \<Rightarrow> error + BitField" where
  "ExtendedJoystickMessage_init cfg =
     Int64BitField_init cfg ExtendedJoystickMessage_cls ''ExtendedJoystickMessage''"

text \<open>The assignments of \<^verbatim>\<open>BitFieldTestCase.testData\<close>, in the order of the test.\<close>

definition testData_values :: "(string \<times> int) list" where
  "testData_values =
     [(''a1NeutralPositionStatus'', 0x1),
      (''a1NegativePositionStatus'', 0x0),
      (''a1PositivePositionStatus'', 0x0),
      (''a1Position'', 0x2AA),
      (''a2NeutralPositionStatus'', 0x3),
      (''a2NegativePositionStatus'', 0x3),
      (''a2PositivePositionStatus'', 0x3),
      (''a2Position'', 0x3FF),
      (''a3NeutralPositionStatus'', 0x3),
      (''a3NegativePositionStatus'', 0x3),
      (''a3PositivePositionStatus'', 0x3),
      (''a3Position'', 0x3FF),
      (''axisPadding'', 0x3),
      (''a3DetentPositionStatus'', 0x3),
      (''a2DetentPositionStatus'', 0x3),
      (''a1DetentPositionStatus'', 0x3),
      (''b4'', 0x3),
      (''b3'', 0x1),
      (''b2'', 0x0),
      (''b1'', 0x1)]"


subsection \<open>Notions used in the statements\<close>

text \<open>
  \<open>holds_bit p k\<close>: bit \<open>k\<close> of a packed integer lies in the range of partition \<open>p\<close>
  and is set in its value. It is the form in which the proofs read the loop of
  \<^verbatim>\<open>data_int\<close>.
\<close>

definition holds_bit :: "BitFieldPartition \<Rightarrow> nat \<Rightarrow> bool" where
  "holds_bit p k \<longleftrightarrow>
     nat (shift_p p) \<le> k \<and> k < nat (shift_p p) + nat (length_p p) \<and>
     bit (value_p p) (k - nat (shift_p p))"

text \<open>
  Reassembling a byte list little-endian, in the words of the specification: byte 0 is
  the least significant.
\<close>

fun from_little_endian :: "int list \<Rightarrow> int" where
  "from_little_endian [] = 0"
| "from_little_endian (b # bs) = b + 256 * from_little_endian bs"

text \<open>
  Two partitions do not overlap when the bit range \<open>[shift, shift + length)\<close> of one
  ends before that of the other begins; a list has no overlap when this holds of every
  two of its members.
\<close>

definition ranges_disjoint :: "BitFieldPartition \<Rightarrow> BitFieldPartition \<Rightarrow> bool" where
  "ranges_disjoint p q \<longleftrightarrow>
     shift_p p + length_p p \<le> shift_p q \<or> shift_p q + length_p q \<le> shift_p p"

fun no_overlap :: "BitFieldPartition list \<Rightarrow> bool" where
  "no_overlap [] = True"
| "no_overlap (p # ps) = ((\<forall>q\<in>set ps. ranges_disjoint p q) \<and> no_overlap ps)"

text \<open>
  A record of two bytes with a partition in the low half of byte 0 and one in the high
  half of byte 1, holding 0x5 and 0xA: the instance the general theorems are applied to.
\<close>

definition nibbles :: BitField where
  "nibbles =
     \<lparr>name_bf = ''Nibbles'', nbytes = 2,
      partitions =
        [BitFieldPartition_init 0 0 4 0x5\<lparr>name := ''lo''\<rparr>,
         BitFieldPartition_init 1 4 4 0xA\<lparr>name := ''hi''\<rparr>]\<rparr>"

subsection \<open>The tests of test.py\<close>

text \<open>
  \<^verbatim>\<open>BitFieldTestCase.testData\<close>: construct the message, assign the twenty values,
  read \<^verbatim>\<open>data_int\<close> and \<^verbatim>\<open>data_ints\<close>.
\<close>

definition testData :: "Config \<Rightarrow> error + int \<times> int list" where
  "testData cfg =
     (case ExtendedJoystickMessage_init cfg of
        Inl e \<Rightarrow> Inl e
      | Inr ejm \<Rightarrow>
          (case setattr_values cfg ejm testData_values of
             Inl e \<Rightarrow> Inl e
           | Inr ejm' \<Rightarrow>
               (case data_int cfg ejm' of
                  Inl e \<Rightarrow> Inl e
                | Inr d \<Rightarrow>
                    (case data_ints cfg ejm' of Inl e \<Rightarrow> Inl e | Inr ds \<Rightarrow> Inr (d, ds)))))"

text \<open>
  \<^verbatim>\<open>BitFieldTestCase.testParseData\<close>: construct the message, parse
  \<^verbatim>\<open>0x47FF_FFFF_FFFF_AA81\<close>, read \<^verbatim>\<open>data_int\<close>.
\<close>

definition testParseData :: "Config \<Rightarrow> error + int" where
  "testParseData cfg =
     (case ExtendedJoystickMessage_init cfg of
        Inl e \<Rightarrow> Inl e
      | Inr ejm \<Rightarrow>
          (case parse_data_int ejm 0x47FFFFFFFFFFAA81 of
             Inl e \<Rightarrow> Inl e
           | Inr ejm' \<Rightarrow> data_int cfg ejm'))"

text \<open>The names of the partitions of a constructed record, in list order.\<close>

definition partition_names :: "error + BitField \<Rightarrow> error + string list" where
  "partition_names r = (case r of Inl e \<Rightarrow> Inl e | Inr bf \<Rightarrow> Inr (map name (partitions bf)))"

subsection \<open>A record wider than its bytes\<close>

text \<open>
  \<^verbatim>\<open>class OutOfWidth(Int8BitField): a = BitFieldPartition(1, 0, 8)\<close>: a record of one
  byte whose only partition lies in byte 1. \<open>out_of_width\<close> is the instance after
  \<^verbatim>\<open>a.value = 0xFF\<close> with the strictness flag off.
\<close>

definition OutOfWidth_cls :: pyclass where
  "OutOfWidth_cls = user_cls ''OutOfWidth'' Int8BitField_cls [(''a'', BitFieldPartition_init 1 0 8 0)]"

definition out_of_width :: BitField where
  "out_of_width =
     \<lparr>name_bf = ''OutOfWidth'', nbytes = 1,
      partitions = [BitFieldPartition_init 1 0 8 0xFF\<lparr>name := ''a''\<rparr>]\<rparr>"

text \<open>\<^verbatim>\<open>bf.partition_map().get(n)\<close> and \<^verbatim>\<open>bf.partition(n).masked_value\<close>\<close>

definition partition_map_at :: "Config \<Rightarrow> BitField \<Rightarrow> string \<Rightarrow> error + int option" where
  "partition_map_at cfg bf n =
     (case partition_map cfg bf False of Inl e \<Rightarrow> Inl e | Inr m \<Rightarrow> Inr (m n))"

definition masked_value_of :: "BitField \<Rightarrow> string \<Rightarrow> error + int" where
  "masked_value_of bf n = (case partition_bf bf n of Inl e \<Rightarrow> Inl e | Inr q \<Rightarrow> masked_value q)"

section \<open>Properties\<close>

subsection \<open>Shifts, masks and masked values\<close>

lemma py_rshift_Inr: "0 \<le> n \<Longrightarrow> py_rshift a n = Inr (drop_bit (nat n) a)"
  by (simp add: py_rshift_def)

lemma py_rshift_Inl: "n < 0 \<Longrightarrow> py_rshift a n = Inl (ValueError ''negative shift count'')"
  by (simp add: py_rshift_def)

lemma py_lshift_Inr: "0 \<le> n \<Longrightarrow> py_lshift a n = Inr (push_bit (nat n) a)"
  by (simp add: py_lshift_def)

lemma py_lshift_Inl: "n < 0 \<Longrightarrow> py_lshift a n = Inl (ValueError ''negative shift count'')"
  by (simp add: py_lshift_def)

lemma mask_p_Inr: "0 \<le> length_p p \<Longrightarrow> mask_p p = Inr (mask (nat (length_p p)))"
  by (simp add: mask_p_def py_lshift_Inr mask_eq_exp_minus_1)

lemma mask_p_Inl: "length_p p < 0 \<Longrightarrow> mask_p p = Inl (ValueError ''negative shift count'')"
  by (simp add: mask_p_def py_lshift_Inl)

lemma mask_p_InrD: "mask_p p = Inr m \<Longrightarrow> 0 \<le> length_p p \<and> m = mask (nat (length_p p))"
  by (cases "0 \<le> length_p p") (simp_all add: mask_p_Inr mask_p_Inl)

lemma masked_value_Inr:
  "0 \<le> length_p p \<Longrightarrow> masked_value p = Inr (take_bit (nat (length_p p)) (value_p p))"
  by (simp add: masked_value_def mask_p_Inr take_bit_eq_mask)

lemma masked_value_Inl:
  "length_p p < 0 \<Longrightarrow> masked_value p = Inl (ValueError ''negative shift count'')"
  by (simp add: masked_value_def mask_p_Inl)

lemma masked_value_InrD:
  "masked_value p = Inr v \<Longrightarrow> 0 \<le> length_p p \<and> v = take_bit (nat (length_p p)) (value_p p)"
  by (cases "0 \<le> length_p p") (simp_all add: masked_value_Inr masked_value_Inl)

subsection \<open>The setter of a partition's value\<close>

text \<open>
  C5. Whenever the mask of a partition is defined (its length is not negative),
  assigning the mask is accepted, whatever the strictness flag; with the flag on,
  assigning the mask plus one raises the OverflowError whose message holds the
  partition's name, its length in decimal and the value in hexadecimal. In particular,
  with the flag on, assigning 0x4 to the two-bit partition named b1 raises
  OverflowError("b1: More than 2 bits of data (0x04)").
\<close>

theorem overflow_boundary:
  "(\<forall>m. mask_p p = Inr m \<longrightarrow>
      set_value cfg p m = Inr (p\<lparr>value_p := m\<rparr>) \<and>
      (error_check_overflow cfg \<longrightarrow>
         set_value cfg p (m + 1) =
           Inl (OverflowError (name p @ '': More than '' @ str_int (length_p p)
                  @ '' bits of data (0x'' @ format_02X (m + 1) @ '')'')))) \<and>
   (error_check_overflow cfg \<longrightarrow>
      set_value cfg (BitFieldPartition_init 0 4 2 0\<lparr>name := ''b1''\<rparr>) 0x4 =
        Inl (OverflowError ''b1: More than 2 bits of data (0x04)''))"
proof -
  have at_mask: "set_value cfg p m = Inr (p\<lparr>value_p := m\<rparr>)" if "mask_p p = Inr m" for m
  proof -
    from that have len: "0 \<le> length_p p" and m: "m = mask (nat (length_p p))"
      using mask_p_InrD by blast+
    have "drop_bit (nat (length_p p)) m = 0"
      by (simp add: m drop_bit_mask_eq)
    then show ?thesis
      by (simp add: set_value_def py_rshift_Inr len)
  qed
  have above: "set_value cfg p (m + 1) =
      Inl (OverflowError (name p @ '': More than '' @ str_int (length_p p)
             @ '' bits of data (0x'' @ format_02X (m + 1) @ '')''))"
    if "mask_p p = Inr m" and "error_check_overflow cfg" for m
  proof -
    from that have len: "0 \<le> length_p p" and m: "m = mask (nat (length_p p))"
      using mask_p_InrD by blast+
    have "m + 1 = 2 ^ nat (length_p p)"
      by (simp add: m mask_eq_exp_minus_1)
    then have "drop_bit (nat (length_p p)) (m + 1) = 1"
      by (simp add: drop_bit_eq_div)
    then show ?thesis
      using that(2) by (simp add: set_value_def py_rshift_Inr len)
  qed
  have b1: "set_value cfg (BitFieldPartition_init 0 4 2 0\<lparr>name := ''b1''\<rparr>) 0x4 =
        Inl (OverflowError ''b1: More than 2 bits of data (0x04)'')"
    if "error_check_overflow cfg"
    using that
    by (simp add: set_value_def BitFieldPartition_init_def py_rshift_def drop_bit_eq_div
        str_int_def format_02X_def dec_nat.simps hex_nat.simps dec_digit_def hex_digit_def)
  show ?thesis using at_mask above b1 by blast
qed

theorem overflow_boundary_witness:
  "mask_p (BitFieldPartition_init 2 6 10 0) = Inr 0x3FF \<and>
   set_value \<lparr>error_check_overflow = True\<rparr> (BitFieldPartition_init 2 6 10 0) 0x3FF
     = Inr (BitFieldPartition_init 2 6 10 0\<lparr>value_p := 0x3FF\<rparr>) \<and>
   set_value \<lparr>error_check_overflow = True\<rparr> (BitFieldPartition_init 2 6 10 0) 0x400
     = Inl (OverflowError '': More than 10 bits of data (0x400)'') \<and>
   set_value \<lparr>error_check_overflow = True\<rparr> (BitFieldPartition_init 0 4 2 0\<lparr>name := ''b1''\<rparr>) 0x4 =
        Inl (OverflowError ''b1: More than 2 bits of data (0x04)'')"
proof -
  have m: "mask_p (BitFieldPartition_init 2 6 10 0) = Inr 0x3FF"
    by (simp add: mask_p_def py_lshift_def BitFieldPartition_init_def)
  have s: "str_int 10 = ''10''" "format_02X 0x400 = ''400''"
    by (simp_all add: str_int_def format_02X_def dec_nat.simps hex_nat.simps dec_digit_def hex_digit_def)
  show ?thesis
    using m s overflow_boundary [of "BitFieldPartition_init 2 6 10 0" "\<lparr>error_check_overflow = True\<rparr>"]
    by (simp add: BitFieldPartition_init_def)
qed

text \<open>
  C10. A negative value is never rejected as an overflow, with the flag on or off: an
  arithmetic shift to the right keeps it negative, so the test \<^verbatim>\<open>> 0\<close> fails. When
  the length of the partition is not negative the value is stored as it is, and
  \<^verbatim>\<open>masked_value\<close> then reads \<^verbatim>\<open>v & mask\<close>.
\<close>

theorem negative_value_bypasses_overflow_check:
  assumes "v < 0"
  shows "(\<forall>msg. set_value cfg p v \<noteq> Inl (OverflowError msg)) \<and>
         (0 \<le> length_p p \<longrightarrow>
            set_value cfg p v = Inr (p\<lparr>value_p := v\<rparr>) \<and>
            masked_value (p\<lparr>value_p := v\<rparr>) = Inr (v AND (2 ^ nat (length_p p) - 1)))"
proof -
  have neg: "\<not> 0 < drop_bit n v" for n
    using assms drop_bit_negative_int_iff [of n v] by linarith
  have a: "set_value cfg p v \<noteq> Inl (OverflowError msg)" for msg
    by (simp add: set_value_def py_rshift_def neg)
  have b: "set_value cfg p v = Inr (p\<lparr>value_p := v\<rparr>)" if "0 \<le> length_p p"
    using that by (simp add: set_value_def py_rshift_Inr neg)
  have c: "masked_value (p\<lparr>value_p := v\<rparr>) = Inr (v AND (2 ^ nat (length_p p) - 1))"
    if "0 \<le> length_p p"
    using that by (simp add: masked_value_def mask_p_def py_lshift_Inr)
  show ?thesis using a b c by blast
qed

theorem negative_value_bypasses_overflow_check_witness:
  "(-1::int) < 0 \<and>
   set_value \<lparr>error_check_overflow = True\<rparr> (BitFieldPartition_init 0 4 2 0) (-1)
     = Inr (BitFieldPartition_init 0 4 2 0\<lparr>value_p := -1\<rparr>) \<and>
   masked_value (BitFieldPartition_init 0 4 2 0\<lparr>value_p := -1\<rparr>) = Inr 3"
  using negative_value_bypasses_overflow_check
    [of "-1" "\<lparr>error_check_overflow = True\<rparr>" "BitFieldPartition_init 0 4 2 0"]
  by (simp add: BitFieldPartition_init_def)

subsection \<open>Parsing\<close>

lemma parse_Inr:
  "0 \<le> shift_p p \<Longrightarrow> 0 \<le> length_p p \<Longrightarrow>
   parse p data = Inr (p\<lparr>value_p := take_bit (nat (length_p p)) (drop_bit (nat (shift_p p)) data)\<rparr>)"
  by (simp add: parse_def py_rshift_Inr mask_p_Inr take_bit_eq_mask)

lemma parse_not_Overflow: "parse p data \<noteq> Inl (OverflowError msg)"
  by (auto simp: parse_def py_rshift_def mask_p_def py_lshift_def split: sum.splits if_splits)

lemma parse_loop_not_Overflow: "parse_loop ps data \<noteq> Inl (OverflowError msg)"
  by (induction ps) (auto simp: parse_not_Overflow split: sum.splits)

lemma parse_loop_Inr:
  "\<forall>p\<in>set ps. 0 \<le> shift_p p \<and> 0 \<le> length_p p \<Longrightarrow>
   parse_loop ps data =
     Inr (map (\<lambda>p. p\<lparr>value_p := take_bit (nat (length_p p)) (drop_bit (nat (shift_p p)) data)\<rparr>) ps)"
  by (induction ps) (simp_all add: parse_Inr)

lemma set_value_in_range:
  "0 \<le> length_p p \<Longrightarrow> 0 \<le> v \<Longrightarrow> v < 2 ^ nat (length_p p) \<Longrightarrow>
   set_value cfg p v = Inr (p\<lparr>value_p := v\<rparr>)"
  by (simp add: set_value_def py_rshift_Inr drop_bit_eq_div)

text \<open>
  C7. \<^verbatim>\<open>parse\<close> and \<^verbatim>\<open>parse_data_int\<close> never raise an OverflowError: they do not
  read the strictness flag and write the field without the setter. For a partition whose
  shift and length are not negative, \<^verbatim>\<open>parse\<close> succeeds and stores
  \<^verbatim>\<open>(raw >> shift) & mask\<close>, a value within \<open>length\<close> bits that the setter itself
  would accept under either flag; \<^verbatim>\<open>parse_data_int\<close> does so for each partition of a
  record whose partitions all are such. (With a negative shift or length the shift
  operator raises a ValueError.)
\<close>

theorem parse_never_fails:
  "(\<forall>msg. parse p raw \<noteq> Inl (OverflowError msg)) \<and>
   (\<forall>msg. parse_data_int bf raw \<noteq> Inl (OverflowError msg)) \<and>
   (0 \<le> shift_p p \<and> 0 \<le> length_p p \<longrightarrow>
      (\<exists>v. parse p raw = Inr (p\<lparr>value_p := v\<rparr>) \<and>
           v = drop_bit (nat (shift_p p)) raw AND (2 ^ nat (length_p p) - 1) \<and>
           0 \<le> v \<and> v < 2 ^ nat (length_p p) \<and>
           set_value cfg p v = Inr (p\<lparr>value_p := v\<rparr>))) \<and>
   ((\<forall>q\<in>set (partitions bf). 0 \<le> shift_p q \<and> 0 \<le> length_p q) \<longrightarrow>
      parse_data_int bf raw =
        Inr (bf\<lparr>partitions :=
               map (\<lambda>q. q\<lparr>value_p := drop_bit (nat (shift_p q)) raw AND (2 ^ nat (length_p q) - 1)\<rparr>)
                 (partitions bf)\<rparr>))"
proof -
  have a: "parse p raw \<noteq> Inl (OverflowError msg)" for msg
    by (rule parse_not_Overflow)
  have b: "parse_data_int bf raw \<noteq> Inl (OverflowError msg)" for msg
    using parse_loop_not_Overflow [of "partitions bf" raw msg]
    by (auto simp add: parse_data_int_def split: sum.splits)
  have c: "\<exists>v. parse p raw = Inr (p\<lparr>value_p := v\<rparr>) \<and>
           v = drop_bit (nat (shift_p p)) raw AND (2 ^ nat (length_p p) - 1) \<and>
           0 \<le> v \<and> v < 2 ^ nat (length_p p) \<and>
           set_value cfg p v = Inr (p\<lparr>value_p := v\<rparr>)"
    if wf: "0 \<le> shift_p p \<and> 0 \<le> length_p p"
  proof -
    let ?v = "take_bit (nat (length_p p)) (drop_bit (nat (shift_p p)) raw)"
    have 1: "parse p raw = Inr (p\<lparr>value_p := ?v\<rparr>)"
      using wf by (simp add: parse_Inr)
    have 2: "?v = drop_bit (nat (shift_p p)) raw AND (2 ^ nat (length_p p) - 1)"
      by (simp add: take_bit_eq_mask mask_eq_exp_minus_1)
    have 3: "0 \<le> ?v" "?v < 2 ^ nat (length_p p)"
      by simp_all
    have 4: "set_value cfg p ?v = Inr (p\<lparr>value_p := ?v\<rparr>)"
      using wf 3 by (intro set_value_in_range) simp_all
    show ?thesis using 1 2 3 4 by metis
  qed
  have d: "parse_data_int bf raw =
        Inr (bf\<lparr>partitions :=
               map (\<lambda>q. q\<lparr>value_p := drop_bit (nat (shift_p q)) raw AND (2 ^ nat (length_p q) - 1)\<rparr>)
                 (partitions bf)\<rparr>)"
    if "\<forall>q\<in>set (partitions bf). 0 \<le> shift_p q \<and> 0 \<le> length_p q"
    using that by (simp add: parse_data_int_def parse_loop_Inr take_bit_eq_mask mask_eq_exp_minus_1)
  show ?thesis using a b c d by blast
qed

theorem parse_never_fails_witness:
  "parse (BitFieldPartition_init 2 6 10 0) 0x47FFFFFFFFFFAA81
     = Inr (BitFieldPartition_init 2 6 10 0\<lparr>value_p := 0x3FF\<rparr>) \<and>
   parse_data_int \<lparr>name_bf = ''m'', nbytes = 1,
       partitions = [BitFieldPartition_init 0 0 4 0, BitFieldPartition_init 0 4 4 0]\<rparr> 0xA5
     = Inr \<lparr>name_bf = ''m'', nbytes = 1,
         partitions = [BitFieldPartition_init 0 0 4 5, BitFieldPartition_init 0 4 4 0xA]\<rparr>"
  using parse_never_fails [of "BitFieldPartition_init 2 6 10 0" "0x47FFFFFFFFFFAA81"
      "\<lparr>name_bf = ''m'', nbytes = 1,
       partitions = [BitFieldPartition_init 0 0 4 0, BitFieldPartition_init 0 4 4 0]\<rparr>" "\<lparr>error_check_overflow = True\<rparr>"]
    parse_never_fails [of "BitFieldPartition_init 2 6 10 0" "0xA5"
      "\<lparr>name_bf = ''m'', nbytes = 1,
       partitions = [BitFieldPartition_init 0 0 4 0, BitFieldPartition_init 0 4 4 0]\<rparr>" "\<lparr>error_check_overflow = True\<rparr>"]
  by (simp add: BitFieldPartition_init_def shift_p_def drop_bit_eq_div)

subsection \<open>Lookup by name\<close>

lemma partition_loop_found:
  "n \<in> name ` set ps \<Longrightarrow> \<exists>p. partition_loop ps n = Inr p \<and> p \<in> set ps \<and> name p = n"
  by (induction ps) auto

lemma partition_loop_missing:
  "n \<notin> name ` set ps \<Longrightarrow> partition_loop ps n = Inl (ValueError (''Partition '' @ n @ '' not found''))"
  by (induction ps) auto

lemma partition_loop_first:
  "partition_loop ps n = Inr p \<Longrightarrow> \<exists>xs ys. ps = xs @ p # ys \<and> name p = n \<and> n \<notin> name ` set xs"
proof (induction ps)
  case Nil
  then show ?case by simp
next
  case (Cons q ps)
  show ?case
  proof (cases "name q = n")
    case True
    with Cons.prems have "p = q" by simp
    with True have "q # ps = [] @ p # ps \<and> name p = n \<and> n \<notin> name ` set []" by simp
    then show ?thesis by blast
  next
    case False
    with Cons obtain xs ys where "ps = xs @ p # ys" "name p = n" "n \<notin> name ` set xs" by auto
    with False have "q # ps = (q # xs) @ p # ys \<and> name p = n \<and> n \<notin> name ` set (q # xs)" by auto
    then show ?thesis by blast
  qed
qed

text \<open>
  C9. \<^verbatim>\<open>partition(name)\<close> returns a partition of the record with that name when
  there is one, and raises ValueError("Partition <name> not found") exactly when there is
  none; the partition returned is the first of the list with that name. The lookup is a
  function of the record and returns no new record: the source assigns nothing.
\<close>

theorem partition_lookup:
  "(n \<in> name ` set (partitions bf) \<longrightarrow>
      (\<exists>p. partition_bf bf n = Inr p \<and> p \<in> set (partitions bf) \<and> name p = n)) \<and>
   (n \<notin> name ` set (partitions bf) \<longrightarrow>
      partition_bf bf n = Inl (ValueError (''Partition '' @ n @ '' not found''))) \<and>
   (\<forall>p. partition_bf bf n = Inr p \<longrightarrow>
      (\<exists>xs ys. partitions bf = xs @ p # ys \<and> name p = n \<and> n \<notin> name ` set xs))"
  unfolding partition_bf_def
  using partition_loop_found [of n "partitions bf"] partition_loop_missing [of n "partitions bf"]
    partition_loop_first [of "partitions bf" n]
  by blast

theorem partition_lookup_witness:
  "partition_bf \<lparr>name_bf = ''m'', nbytes = 1,
       partitions = [BitFieldPartition_init 0 0 4 0\<lparr>name := ''lo''\<rparr>,
                     BitFieldPartition_init 0 4 4 0\<lparr>name := ''hi''\<rparr>]\<rparr> ''hi''
     = Inr (BitFieldPartition_init 0 4 4 0\<lparr>name := ''hi''\<rparr>) \<and>
   partition_bf \<lparr>name_bf = ''m'', nbytes = 1,
       partitions = [BitFieldPartition_init 0 0 4 0\<lparr>name := ''lo''\<rparr>,
                     BitFieldPartition_init 0 4 4 0\<lparr>name := ''hi''\<rparr>]\<rparr> ''mid''
     = Inl (ValueError ''Partition mid not found'')"
  using partition_lookup [of "''hi''" "\<lparr>name_bf = ''m'', nbytes = 1,
       partitions = [BitFieldPartition_init 0 0 4 0\<lparr>name := ''lo''\<rparr>,
                     BitFieldPartition_init 0 4 4 0\<lparr>name := ''hi''\<rparr>]\<rparr>"]
    partition_lookup [of "''mid''" "\<lparr>name_bf = ''m'', nbytes = 1,
       partitions = [BitFieldPartition_init 0 0 4 0\<lparr>name := ''lo''\<rparr>,
                     BitFieldPartition_init 0 4 4 0\<lparr>name := ''hi''\<rparr>]\<rparr>"]
  by (auto simp add: BitFieldPartition_init_def)

subsection \<open>Packing\<close>

lemma pack_loop_InrD:
  "pack_loop ps data = Inr r \<Longrightarrow> \<forall>p\<in>set ps. 0 \<le> shift_p p \<and> 0 \<le> length_p p"
proof (induction ps arbitrary: data)
  case Nil
  then show ?case by simp
next
  case (Cons p ps)
  from Cons.prems obtain mv where mv: "masked_value p = Inr mv"
    by (cases "masked_value p") simp_all
  with Cons.prems obtain x where x: "py_lshift mv (shift_p p) = Inr x"
    by (cases "py_lshift mv (shift_p p)") simp_all
  from Cons.prems mv x have rest: "pack_loop ps (data OR x) = Inr r" by simp
  have "0 \<le> length_p p" using mv masked_value_InrD by blast
  moreover have "0 \<le> shift_p p" using x by (cases "0 \<le> shift_p p") (simp_all add: py_lshift_Inl)
  ultimately show ?case using Cons.IH [OF rest] by simp
qed

lemma pack_loop_step:
  "0 \<le> shift_p p \<Longrightarrow> 0 \<le> length_p p \<Longrightarrow>
   pack_loop (p # ps) data =
     pack_loop ps (data OR push_bit (nat (shift_p p)) (take_bit (nat (length_p p)) (value_p p)))"
  by (simp add: masked_value_Inr py_lshift_Inr)

lemma pack_loop_total:
  "\<forall>p\<in>set ps. 0 \<le> shift_p p \<and> 0 \<le> length_p p \<Longrightarrow> \<exists>r. pack_loop ps data = Inr r"
  by (induction ps arbitrary: data) (simp_all add: pack_loop_step del: pack_loop.simps(2))

lemma pack_loop_nonneg:
  "pack_loop ps data = Inr r \<Longrightarrow> 0 \<le> data \<Longrightarrow> 0 \<le> r"
proof (induction ps arbitrary: data)
  case Nil
  then show ?case by simp
next
  case (Cons p ps)
  from pack_loop_InrD [OF Cons.prems(1)] have wf: "0 \<le> shift_p p" "0 \<le> length_p p" by simp_all
  let ?x = "push_bit (nat (shift_p p)) (take_bit (nat (length_p p)) (value_p p))"
  from Cons.prems(1) have rest: "pack_loop ps (data OR ?x) = Inr r"
    by (simp only: pack_loop_step [OF wf])
  have "0 \<le> data OR ?x" using Cons.prems(2) by simp
  with Cons.IH [OF rest] show ?case .
qed

lemma bit_pack_loop:
  "pack_loop ps data = Inr r \<Longrightarrow>
   bit r k \<longleftrightarrow> bit data k \<or> (\<exists>p\<in>set ps. holds_bit p k)"
proof (induction ps arbitrary: data)
  case Nil
  then show ?case by simp
next
  case (Cons p ps)
  from pack_loop_InrD [OF Cons.prems(1)] have wf: "0 \<le> shift_p p" "0 \<le> length_p p" by simp_all
  let ?x = "push_bit (nat (shift_p p)) (take_bit (nat (length_p p)) (value_p p))"
  from Cons.prems(1) have rest: "pack_loop ps (data OR ?x) = Inr r"
    by (simp only: pack_loop_step [OF wf])
  have x: "bit ?x k \<longleftrightarrow> holds_bit p k"
    by (auto simp add: holds_bit_def bit_push_bit_iff_int bit_take_bit_iff)
  show ?case
    unfolding Cons.IH [OF rest] by (auto simp add: bit_or_iff x)
qed

lemma mask_bf_Inr: "0 \<le> nbits bf \<Longrightarrow> mask_bf bf = Inr (mask (nat (nbits bf)))"
  by (simp add: mask_bf_def py_lshift_Inr mask_eq_exp_minus_1)

lemma mask_bf_Inl: "nbits bf < 0 \<Longrightarrow> mask_bf bf = Inl (ValueError ''negative shift count'')"
  by (simp add: mask_bf_def py_lshift_Inl)

lemma drop_bit_pos_iff: "0 < drop_bit n (k::int) \<longleftrightarrow> 2 ^ n \<le> k"
  by (simp add: drop_bit_eq_div pos_imp_zdiv_pos_iff)

lemma data_int_Inr:
  assumes "pack_loop (partitions bf) 0 = Inr data" and "0 \<le> nbits bf"
    and "error_check_overflow cfg \<longrightarrow> data < 2 ^ nat (nbits bf)"
  shows "data_int cfg bf = Inr (take_bit (nat (nbits bf)) data)"
  using assms
  by (auto simp add: data_int_def py_rshift_Inr mask_bf_Inr take_bit_eq_mask drop_bit_pos_iff)

lemma data_int_InrD:
  assumes "data_int cfg bf = Inr d"
  shows "\<exists>data. pack_loop (partitions bf) 0 = Inr data \<and> 0 \<le> nbits bf \<and>
           d = take_bit (nat (nbits bf)) data \<and> (error_check_overflow cfg \<longrightarrow> d = data)"
proof -
  from assms obtain data where data: "pack_loop (partitions bf) 0 = Inr data"
    by (cases "pack_loop (partitions bf) 0") (simp_all add: data_int_def)
  have nn: "0 \<le> data" using pack_loop_nonneg [OF data] by simp
  have nb: "0 \<le> nbits bf"
  proof (rule ccontr)
    assume "\<not> 0 \<le> nbits bf"
    then have "nbits bf < 0" by simp
    then have "data_int cfg bf = Inl (ValueError ''negative shift count'')"
      by (simp add: data_int_def data py_rshift_Inl mask_bf_Inl)
    with assms show False by simp
  qed
  have d: "d = take_bit (nat (nbits bf)) data"
    using assms
    by (simp add: data_int_def data py_rshift_Inr mask_bf_Inr nb take_bit_eq_mask
        split: if_splits)
  have "d = data" if "error_check_overflow cfg"
  proof -
    from assms that have "\<not> 0 < drop_bit (nat (nbits bf)) data"
      by (auto simp add: data_int_def data py_rshift_Inr nb split: if_splits)
    then have "data < 2 ^ nat (nbits bf)" by (simp add: drop_bit_pos_iff)
    with nn show ?thesis by (simp add: d take_bit_int_eq_self)
  qed
  with data nb d show ?thesis by blast
qed

lemma bit_data_int:
  assumes "data_int cfg bf = Inr d"
  shows "bit d k \<longleftrightarrow> k < nat (nbits bf) \<and> (\<exists>p\<in>set (partitions bf). holds_bit p k)"
proof -
  from data_int_InrD [OF assms] obtain data where
    data: "pack_loop (partitions bf) 0 = Inr data" and d: "d = take_bit (nat (nbits bf)) data"
    by blast
  show ?thesis
    by (simp add: d bit_take_bit_iff bit_pack_loop [OF data])
qed

lemma data_int_bounds:
  assumes "data_int cfg bf = Inr d"
  shows "0 \<le> d \<and> d < 2 ^ nat (nbits bf)"
proof -
  from data_int_InrD [OF assms] obtain data where d: "d = take_bit (nat (nbits bf)) data"
    by blast
  show ?thesis by (simp add: d)
qed

lemma nibbles_data_int: "data_int \<lparr>error_check_overflow = True\<rparr> nibbles = Inr 0xA005"
  by code_simp

text \<open>
  C1. Whenever \<^verbatim>\<open>data_int\<close> returns an integer \<open>d\<close>, \<^verbatim>\<open>parse_data_int(d)\<close>
  succeeds and \<^verbatim>\<open>data_int\<close> of the parsed record returns \<open>d\<close> again, whatever the
  strictness flag is at either reading. The values of the partitions need not lie
  within their masks for this, since packing reads \<^verbatim>\<open>masked_value\<close>. And
  \<^verbatim>\<open>data_int\<close> does return an integer for every record whose width is not negative and
  whose partitions have their bit ranges within it.
\<close>

theorem round_trip:
  "(data_int cfg bf = Inr d \<longrightarrow>
      (\<exists>bf'. parse_data_int bf d = Inr bf' \<and> data_int cfg' bf' = Inr d)) \<and>
   (0 \<le> nbytes bf \<and>
    (\<forall>p\<in>set (partitions bf).
        0 \<le> shift_p p \<and> 0 \<le> length_p p \<and> shift_p p + length_p p \<le> nbits bf) \<longrightarrow>
      (\<exists>d. data_int cfg bf = Inr d))"
proof -
  have first: "\<exists>bf'. parse_data_int bf d = Inr bf' \<and> data_int cfg' bf' = Inr d"
    if ok: "data_int cfg bf = Inr d"
  proof -
    let ?f = "\<lambda>p. p\<lparr>value_p := take_bit (nat (length_p p)) (drop_bit (nat (shift_p p)) d)\<rparr>"
    let ?bf' = "bf\<lparr>partitions := map ?f (partitions bf)\<rparr>"
    from data_int_InrD [OF ok] obtain data where
      data: "pack_loop (partitions bf) 0 = Inr data" and nb: "0 \<le> nbits bf"
      by blast
    have wf: "\<forall>p\<in>set (partitions bf). 0 \<le> shift_p p \<and> 0 \<le> length_p p"
      using pack_loop_InrD [OF data] .
    have parsed: "parse_data_int bf d = Inr ?bf'"
      using wf by (simp add: parse_data_int_def parse_loop_Inr)
    have "\<forall>p\<in>set (map ?f (partitions bf)). 0 \<le> shift_p p \<and> 0 \<le> length_p p"
      using wf by (simp add: shift_p_def)
    from pack_loop_total [OF this] obtain data' where
      data': "pack_loop (map ?f (partitions bf)) 0 = Inr data'"
      by blast
    have "bit data' k \<longleftrightarrow> bit d k" for k
    proof -
      have "bit data' k \<longleftrightarrow>
          (\<exists>p\<in>set (partitions bf).
             nat (shift_p p) \<le> k \<and> k < nat (shift_p p) + nat (length_p p) \<and> bit d k)"
        by (auto simp add: bit_pack_loop [OF data'] holds_bit_def shift_p_def bit_take_bit_iff
            bit_drop_bit_eq)
      also have "\<dots> \<longleftrightarrow> bit d k"
        by (auto simp add: bit_data_int [OF ok] holds_bit_def)
      finally show ?thesis .
    qed
    then have eq: "data' = d" by (simp add: bit_eq_iff)
    have "data_int cfg' ?bf' = Inr (take_bit (nat (nbits ?bf')) data')"
      using data' nb data_int_bounds [OF ok]
      by (intro data_int_Inr) (simp_all add: nbits_def eq)
    also have "take_bit (nat (nbits ?bf')) data' = d"
      using data_int_bounds [OF ok] by (simp add: eq nbits_def take_bit_int_eq_self)
    finally show ?thesis using parsed by blast
  qed
  have second: "\<exists>d. data_int cfg bf = Inr d"
    if nb: "0 \<le> nbytes bf"
      and fits: "\<forall>p\<in>set (partitions bf).
        0 \<le> shift_p p \<and> 0 \<le> length_p p \<and> shift_p p + length_p p \<le> nbits bf"
  proof -
    from fits have "\<forall>p\<in>set (partitions bf). 0 \<le> shift_p p \<and> 0 \<le> length_p p" by blast
    from pack_loop_total [OF this] obtain data where
      data: "pack_loop (partitions bf) 0 = Inr data"
      by blast
    have nn: "0 \<le> data" using pack_loop_nonneg [OF data] by simp
    have "\<not> bit data k" if "nat (nbits bf) \<le> k" for k
    proof -
      have "\<not> holds_bit p k" if "p \<in> set (partitions bf)" for p
      proof -
        from fits that have "nat (shift_p p) + nat (length_p p) \<le> nat (nbits bf)" by auto
        with \<open>nat (nbits bf) \<le> k\<close> show ?thesis by (simp add: holds_bit_def)
      qed
      then show ?thesis by (auto simp add: bit_pack_loop [OF data])
    qed
    then have "take_bit (nat (nbits bf)) data = data"
      by (auto simp add: bit_eq_iff bit_take_bit_iff) (meson not_le)
    then have "data < 2 ^ nat (nbits bf)"
      by (simp add: take_bit_int_eq_self_iff)
    with data nb have "data_int cfg bf = Inr (take_bit (nat (nbits bf)) data)"
      by (intro data_int_Inr) (simp_all add: nbits_def)
    then show ?thesis by blast
  qed
  show ?thesis using first second by blast
qed

theorem round_trip_witness:
  "data_int \<lparr>error_check_overflow = True\<rparr> nibbles = Inr 0xA005 \<and>
   (\<exists>bf'. parse_data_int nibbles 0xA005 = Inr bf' \<and>
      data_int \<lparr>error_check_overflow = True\<rparr> bf' = Inr 0xA005) \<and>
   0 \<le> nbytes nibbles \<and>
   list_all (\<lambda>p. 0 \<le> shift_p p \<and> 0 \<le> length_p p \<and> shift_p p + length_p p \<le> nbits nibbles)
     (partitions nibbles) \<and>
   (\<exists>d. data_int \<lparr>error_check_overflow = False\<rparr> nibbles = Inr d)"
proof -
  have fits: "0 \<le> nbytes nibbles \<and>
    (\<forall>p\<in>set (partitions nibbles).
      0 \<le> shift_p p \<and> 0 \<le> length_p p \<and> shift_p p + length_p p \<le> nbits nibbles)"
    by (simp add: nibbles_def BitFieldPartition_init_def shift_p_def nbits_def)
  show ?thesis
    using nibbles_data_int fits
      round_trip [of "\<lparr>error_check_overflow = True\<rparr>" nibbles "0xA005"
        "\<lparr>error_check_overflow = True\<rparr>"]
      round_trip [of "\<lparr>error_check_overflow = False\<rparr>" nibbles "0xA005"
        "\<lparr>error_check_overflow = True\<rparr>"]
    by (simp add: list_all_iff)
qed

subsection \<open>The byte list\<close>

lemma upto_as_upt: "[0..int n - 1] = map int [0..<n]"
proof (induction n)
  case 0
  then show ?case by simp
next
  case (Suc n)
  have "[0..int (Suc n) - 1] = [0..int n - 1] @ [int n]"
    using upto_rec2 [of 0 "int n"] by simp
  with Suc show ?case by simp
qed

lemma from_little_endian_bytes:
  "from_little_endian (map (\<lambda>i. drop_bit (i * 8) d AND 0xFF) [0..<n]) = take_bit (n * 8) d"
proof (induction n arbitrary: d)
  case 0
  then show ?case by simp
next
  case (Suc n)
  have byte: "k AND 0xFF = k mod 256" for k :: int
    using take_bit_eq_mask [of 8 k] by (simp add: take_bit_eq_mod mask_eq_exp_minus_1)
  have shift: "drop_bit (Suc i * 8) d = drop_bit (i * 8) (drop_bit 8 d)" for i
    by (simp add: drop_bit_drop_bit add.commute)
  have "from_little_endian (map (\<lambda>i. drop_bit (i * 8) d AND 0xFF) [0..<Suc n]) =
      (d AND 0xFF) + 256 * from_little_endian (map (\<lambda>i. drop_bit (i * 8) (drop_bit 8 d) AND 0xFF) [0..<n])"
    by (simp only: map_upt_Suc from_little_endian.simps shift) simp
  also have "\<dots> = (d AND 0xFF) + 256 * take_bit (n * 8) (drop_bit 8 d)"
    by (simp only: Suc.IH)
  also have "\<dots> = d mod 256 + 256 * take_bit (n * 8) (d div 256)"
    by (simp add: byte drop_bit_eq_div)
  also have "\<dots> = take_bit (Suc n * 8) d"
  proof -
    have "d mod (256 * 2 ^ (n * 8)) = 256 * (d div 256 mod 2 ^ (n * 8)) + d mod 256"
      by (rule zmod_zmult2_eq) simp
    moreover have "(2::int) ^ (Suc n * 8) = 256 * 2 ^ (n * 8)"
      by (simp add: power_add)
    ultimately show ?thesis by (simp add: take_bit_eq_mod)
  qed
  finally show ?case .
qed

text \<open>
  C6. Whenever \<^verbatim>\<open>data_int\<close> returns \<open>d\<close> (it did not overflow), \<^verbatim>\<open>data_ints\<close>
  returns a list of exactly \<^verbatim>\<open>nbytes\<close> entries, entry \<open>i\<close> is
  \<^verbatim>\<open>(d >> (i*8)) & 0xFF\<close> and lies in \<open>[0, 255]\<close>, and the entries reassembled
  little-endian give \<open>d\<close>.
\<close>

theorem byte_decomposition:
  "data_int cfg bf = Inr d \<longrightarrow>
     (\<exists>bs. data_ints cfg bf = Inr bs \<and>
        int (length bs) = nbytes bf \<and>
        (\<forall>i<length bs. bs ! i = drop_bit (i * 8) d AND 0xFF \<and> 0 \<le> bs ! i \<and> bs ! i \<le> 255) \<and>
        from_little_endian bs = d)"
proof
  assume ok: "data_int cfg bf = Inr d"
  from data_int_InrD [OF ok] have nb: "0 \<le> nbytes bf" by (auto simp add: nbits_def)
  define n where "n = nat (nbytes bf)"
  let ?bs = "map (\<lambda>i. drop_bit (i * 8) d AND 0xFF) [0..<n]"
  have range: "[0..nbytes bf - 1] = map int [0..<n]"
    using upto_as_upt [of n] nb by (simp add: n_def)
  have idx: "nat (int i * 8) = i * 8" for i
    by (simp add: nat_mult_distrib)
  have 1: "data_ints cfg bf = Inr ?bs"
    by (simp add: data_ints_def ok range comp_def idx)
  have 2: "int (length ?bs) = nbytes bf"
    using nb by (simp add: n_def)
  have byte: "k AND 0xFF = take_bit 8 k" for k :: int
    using take_bit_eq_mask [of 8 k] by (simp add: mask_eq_exp_minus_1)
  have 3: "\<forall>i<length ?bs. ?bs ! i = drop_bit (i * 8) d AND 0xFF \<and> 0 \<le> ?bs ! i \<and> ?bs ! i \<le> 255"
  proof (intro allI impI)
    fix i assume "i < length ?bs"
    then have i: "i < n" by simp
    have "take_bit 8 (drop_bit (i * 8) d) < 2 ^ 8" by (rule take_bit_int_less_exp)
    then show "?bs ! i = drop_bit (i * 8) d AND 0xFF \<and> 0 \<le> ?bs ! i \<and> ?bs ! i \<le> 255"
      using i by (simp add: byte)
  qed
  have "from_little_endian ?bs = take_bit (n * 8) d"
    by (rule from_little_endian_bytes)
  also have "\<dots> = d"
    using data_int_bounds [OF ok] nb
    by (intro take_bit_int_eq_self) (simp_all add: nbits_def n_def nat_mult_distrib)
  finally have 4: "from_little_endian ?bs = d" .
  show "\<exists>bs. data_ints cfg bf = Inr bs \<and>
        int (length bs) = nbytes bf \<and>
        (\<forall>i<length bs. bs ! i = drop_bit (i * 8) d AND 0xFF \<and> 0 \<le> bs ! i \<and> bs ! i \<le> 255) \<and>
        from_little_endian bs = d"
    using 1 2 3 4 by blast
qed

theorem byte_decomposition_witness:
  "data_int \<lparr>error_check_overflow = True\<rparr> nibbles = Inr 0xA005 \<and>
   (\<exists>bs. data_ints \<lparr>error_check_overflow = True\<rparr> nibbles = Inr bs \<and>
      int (length bs) = nbytes nibbles \<and>
      (\<forall>i<length bs. bs ! i = drop_bit (i * 8) 0xA005 AND 0xFF \<and> 0 \<le> bs ! i \<and> bs ! i \<le> 255) \<and>
      from_little_endian bs = 0xA005)"
  using nibbles_data_int
    byte_decomposition [of "\<lparr>error_check_overflow = True\<rparr>" nibbles "0xA005"]
  by simp

subsection \<open>The partition map\<close>

lemma no_overlap_disjoint:
  "no_overlap ps \<Longrightarrow> p \<in> set ps \<Longrightarrow> q \<in> set ps \<Longrightarrow> p \<noteq> q \<Longrightarrow> ranges_disjoint p q"
  by (induction ps) (auto simp add: ranges_disjoint_def)

lemma holds_bit_unique:
  assumes "no_overlap ps" "p \<in> set ps" "q \<in> set ps"
    and "0 \<le> shift_p p" "0 \<le> length_p p" "0 \<le> shift_p q" "0 \<le> length_p q"
    and "nat (shift_p p) \<le> k" "k < nat (shift_p p) + nat (length_p p)"
    and "holds_bit q k"
  shows "q = p"
proof (rule ccontr)
  assume "q \<noteq> p"
  with assms(1-3) have "ranges_disjoint p q" using no_overlap_disjoint by blast
  then consider "shift_p p + length_p p \<le> shift_p q" | "shift_p q + length_p q \<le> shift_p p"
    by (auto simp add: ranges_disjoint_def)
  then show False
  proof cases
    case 1
    with assms(4-7) have "nat (shift_p p) + nat (length_p p) \<le> nat (shift_p q)" by linarith
    with assms(9,10) show False by (simp add: holds_bit_def)
  next
    case 2
    with assms(4-7) have "nat (shift_p q) + nat (length_p q) \<le> nat (shift_p p)" by linarith
    with assms(8,10) show False by (simp add: holds_bit_def)
  qed
qed

lemma map_loop_result:
  assumes "\<forall>p\<in>set ps. 0 \<le> shift_p p \<and> 0 \<le> length_p p" and "distinct (map name ps)"
  shows "\<exists>r. map_loop False data ps m = Inr r \<and>
           (\<forall>p\<in>set ps. r (name p) =
              Some (take_bit (nat (length_p p)) (drop_bit (nat (shift_p p)) data))) \<and>
           (\<forall>n. n \<notin> name ` set ps \<longrightarrow> r n = m n)"
  using assms
proof (induction ps arbitrary: m)
  case Nil
  then show ?case by simp
next
  case (Cons p ps)
  let ?v = "take_bit (nat (length_p p)) (drop_bit (nat (shift_p p)) data)"
  from Cons.prems have wf: "0 \<le> shift_p p" "0 \<le> length_p p" by simp_all
  have step: "map_loop False data (p # ps) m = map_loop False data ps (m(name p \<mapsto> ?v))"
    by (simp add: py_rshift_Inr mask_p_Inr wf take_bit_eq_mask)
  from Cons.prems have "\<forall>p\<in>set ps. 0 \<le> shift_p p \<and> 0 \<le> length_p p" "distinct (map name ps)"
    by simp_all
  from Cons.IH [OF this, of "m(name p \<mapsto> ?v)"] obtain r where
    r: "map_loop False data ps (m(name p \<mapsto> ?v)) = Inr r"
      "\<forall>q\<in>set ps. r (name q) = Some (take_bit (nat (length_p q)) (drop_bit (nat (shift_p q)) data))"
      "\<forall>n. n \<notin> name ` set ps \<longrightarrow> r n = (m(name p \<mapsto> ?v)) n"
    by blast
  from Cons.prems(2) have "name p \<notin> name ` set ps" by simp
  with r(3) have "r (name p) = Some ?v" by simp
  moreover have "\<forall>n. n \<notin> name ` set (p # ps) \<longrightarrow> r n = m n"
    using r(3) by simp
  ultimately show ?case
    unfolding step using r(1,2) by auto
qed

lemma partition_loop_distinct:
  "distinct (map name ps) \<Longrightarrow> p \<in> set ps \<Longrightarrow> partition_loop ps (name p) = Inr p"
  by (induction ps) auto

text \<open>
  C8, as the code has it. For a record whose partitions have distinct names and whose
  \<^verbatim>\<open>data_int\<close> returns \<open>d\<close>, \<^verbatim>\<open>partition_map()\<close> returns a map defined on the
  partition names only, which maps the name of each partition to
  \<^verbatim>\<open>(d >> shift) & mask\<close>. When moreover no two partitions overlap and no bit was cut
  off by the width of the record (the flag is on, so that \<^verbatim>\<open>data_int\<close> checked it, or
  every partition lies within \<^verbatim>\<open>nbits\<close>), each value of the map is the
  \<^verbatim>\<open>masked_value\<close> of \<^verbatim>\<open>partition(name)\<close>.
\<close>

theorem partition_map_consistent:
  assumes "data_int cfg bf = Inr d" and "distinct (map name (partitions bf))"
  shows "\<exists>m. partition_map cfg bf False = Inr m \<and>
           (\<forall>n. n \<notin> name ` set (partitions bf) \<longrightarrow> m n = None) \<and>
           (\<forall>p\<in>set (partitions bf).
              m (name p) = Some (drop_bit (nat (shift_p p)) d AND (2 ^ nat (length_p p) - 1))) \<and>
           (no_overlap (partitions bf) \<and>
            (error_check_overflow cfg \<or>
             (\<forall>p\<in>set (partitions bf). shift_p p + length_p p \<le> nbits bf)) \<longrightarrow>
              (\<forall>n v. m n = Some v \<longrightarrow>
                 (\<exists>q. partition_bf bf n = Inr q \<and> masked_value q = Inr v)))"
proof -
  let ?ps = "partitions bf"
  let ?val = "\<lambda>p. take_bit (nat (length_p p)) (drop_bit (nat (shift_p p)) d)"
  from data_int_InrD [OF assms(1)] obtain data where
    data: "pack_loop ?ps 0 = Inr data" and d: "d = take_bit (nat (nbits bf)) data"
    and strict: "error_check_overflow cfg \<longrightarrow> d = data"
    by blast
  have wf: "\<forall>p\<in>set ?ps. 0 \<le> shift_p p \<and> 0 \<le> length_p p"
    using pack_loop_InrD [OF data] .
  from map_loop_result [OF wf assms(2), of d Map.empty] obtain m where
    m: "map_loop False d ?ps Map.empty = Inr m"
      "\<forall>p\<in>set ?ps. m (name p) = Some (?val p)"
      "\<forall>n. n \<notin> name ` set ?ps \<longrightarrow> m n = None"
    by auto
  have 1: "partition_map cfg bf False = Inr m"
    by (simp add: partition_map_def assms(1) m(1))
  have 2: "\<forall>p\<in>set ?ps.
      m (name p) = Some (drop_bit (nat (shift_p p)) d AND (2 ^ nat (length_p p) - 1))"
    using m(2) by (simp add: take_bit_eq_mask mask_eq_exp_minus_1)
  have 3: "\<exists>q. partition_bf bf n = Inr q \<and> masked_value q = Inr v"
    if no: "no_overlap ?ps"
      and fit: "error_check_overflow cfg \<or> (\<forall>p\<in>set ?ps. shift_p p + length_p p \<le> nbits bf)"
      and nv: "m n = Some v"
    for n v
  proof -
    have "n \<in> name ` set ?ps"
    proof (rule ccontr)
      assume "n \<notin> name ` set ?ps"
      with m(3) have "m n = None" by blast
      with nv show False by simp
    qed
    then obtain p where p: "p \<in> set ?ps" "name p = n" by auto
    from wf p(1) have wfp: "0 \<le> shift_p p" "0 \<le> length_p p" by simp_all
    have look: "partition_bf bf n = Inr p"
      using partition_loop_distinct [OF assms(2) p(1)] p(2) by (simp add: partition_bf_def)
    have v: "v = ?val p" using nv m(2) p by auto
    have "bit (?val p) j \<longleftrightarrow> bit (take_bit (nat (length_p p)) (value_p p)) j" for j
    proof (cases "j < nat (length_p p)")
      case False
      then show ?thesis by (simp add: bit_take_bit_iff)
    next
      case True
      let ?k = "nat (shift_p p) + j"
      have inside: "nat (shift_p p) \<le> ?k" "?k < nat (shift_p p) + nat (length_p p)"
        using True by simp_all
      have only: "(\<exists>q\<in>set ?ps. holds_bit q ?k) \<longleftrightarrow> holds_bit p ?k"
      proof
        assume "\<exists>q\<in>set ?ps. holds_bit q ?k"
        then obtain q where q: "q \<in> set ?ps" "holds_bit q ?k" by blast
        from wf q(1) have "0 \<le> shift_p q" "0 \<le> length_p q" by simp_all
        from holds_bit_unique [OF no p(1) q(1) wfp this inside q(2)] q(2)
        show "holds_bit p ?k" by simp
      next
        assume "holds_bit p ?k"
        with p(1) show "\<exists>q\<in>set ?ps. holds_bit q ?k" by blast
      qed
      have "bit d ?k \<longleftrightarrow> (\<exists>q\<in>set ?ps. holds_bit q ?k)"
      proof (cases "error_check_overflow cfg")
        case True
        with strict have "d = data" by simp
        then show ?thesis by (simp add: bit_pack_loop [OF data])
      next
        case False
        with fit p(1) have "shift_p p + length_p p \<le> nbits bf" by blast
        with wfp inside have "?k < nat (nbits bf)" by linarith
        then show ?thesis by (simp add: bit_data_int [OF assms(1)])
      qed
      with only have "bit d ?k \<longleftrightarrow> holds_bit p ?k" by simp
      then show ?thesis
        using True by (simp add: bit_take_bit_iff bit_drop_bit_eq holds_bit_def)
    qed
    then have "?val p = take_bit (nat (length_p p)) (value_p p)"
      by (simp add: bit_eq_iff)
    then have "masked_value p = Inr v"
      by (simp add: masked_value_Inr wfp v)
    with look show ?thesis by blast
  qed
  show ?thesis using 1 2 3 m(3) by blast
qed

theorem partition_map_consistent_witness:
  "data_int \<lparr>error_check_overflow = True\<rparr> nibbles = Inr 0xA005 \<and>
   distinct (map name (partitions nibbles)) \<and>
   no_overlap (partitions nibbles) \<and>
   (\<exists>m. partition_map \<lparr>error_check_overflow = True\<rparr> nibbles False = Inr m \<and>
      m ''lo'' = Some 0x5 \<and> m ''hi'' = Some 0xA \<and>
      (\<forall>n v. m n = Some v \<longrightarrow>
         (\<exists>q. partition_bf nibbles n = Inr q \<and> masked_value q = Inr v)))"
proof -
  have dist: "distinct (map name (partitions nibbles))"
    by (simp add: nibbles_def BitFieldPartition_init_def)
  have no: "no_overlap (partitions nibbles)"
    by (simp add: nibbles_def BitFieldPartition_init_def ranges_disjoint_def shift_p_def)
  from partition_map_consistent [OF nibbles_data_int dist] obtain m where
    m: "partition_map \<lparr>error_check_overflow = True\<rparr> nibbles False = Inr m"
      "\<forall>p\<in>set (partitions nibbles).
         m (name p) = Some (drop_bit (nat (shift_p p)) 0xA005 AND (2 ^ nat (length_p p) - 1))"
      "no_overlap (partitions nibbles) \<and>
       (error_check_overflow \<lparr>error_check_overflow = True\<rparr> \<or>
        (\<forall>p\<in>set (partitions nibbles). shift_p p + length_p p \<le> nbits nibbles)) \<longrightarrow>
        (\<forall>n v. m n = Some v \<longrightarrow>
           (\<exists>q. partition_bf nibbles n = Inr q \<and> masked_value q = Inr v))"
    by blast
  from m(2) have "m ''lo'' = Some 0x5 \<and> m ''hi'' = Some 0xA"
    by (simp add: nibbles_def BitFieldPartition_init_def shift_p_def drop_bit_eq_div)
  moreover from m(3) no have "\<forall>n v. m n = Some v \<longrightarrow>
           (\<exists>q. partition_bf nibbles n = Inr q \<and> masked_value q = Inr v)"
    by simp
  ultimately show ?thesis using nibbles_data_int dist no m(1) by blast
qed

text \<open>
  C8, as the claim states it, fails with the flag off on a record with a partition beyond
  its width: \<^verbatim>\<open>data_int\<close> truncates to \<^verbatim>\<open>nbytes\<close> without an error, so the map
  gives 0 for the partition while its \<^verbatim>\<open>masked_value\<close> is 0xFF. The record is the
  one the constructor and the assignment produce, and its single partition overlaps
  nothing.
\<close>

theorem partition_map_truncation_counterexample:
  "(case Int8BitField_init \<lparr>error_check_overflow = False\<rparr> OutOfWidth_cls ''OutOfWidth'' of
      Inl e \<Rightarrow> Inl e
    | Inr bf \<Rightarrow> setattr_value \<lparr>error_check_overflow = False\<rparr> bf ''a'' 0xFF) = Inr out_of_width \<and>
   no_overlap (partitions out_of_width) \<and>
   partition_map_at \<lparr>error_check_overflow = False\<rparr> out_of_width ''a'' = Inr (Some 0) \<and>
   masked_value_of out_of_width ''a'' = Inr 0xFF"
  by code_simp

subsection \<open>The joystick message\<close>

text \<open>
  C2. With the flag on (the default) and with the flag off, \<^verbatim>\<open>testData\<close> reads
  \<^verbatim>\<open>data_int == 0x47FFFFFFFFFFAA81\<close> and
  \<^verbatim>\<open>data_ints == [0x81, 0xAA, 0xFF, 0xFF, 0xFF, 0xFF, 0xFF, 0x47]\<close> after the twenty
  assignments, and \<^verbatim>\<open>testParseData\<close> reads \<^verbatim>\<open>0x47FFFFFFFFFFAA81\<close> back after
  parsing it.
\<close>

theorem joystick_scenario:
  "testData \<lparr>error_check_overflow = True\<rparr> =
     Inr (0x47FFFFFFFFFFAA81, [0x81, 0xAA, 0xFF, 0xFF, 0xFF, 0xFF, 0xFF, 0x47]) \<and>
   testParseData \<lparr>error_check_overflow = True\<rparr> = Inr 0x47FFFFFFFFFFAA81 \<and>
   testData \<lparr>error_check_overflow = False\<rparr> =
     Inr (0x47FFFFFFFFFFAA81, [0x81, 0xAA, 0xFF, 0xFF, 0xFF, 0xFF, 0xFF, 0x47]) \<and>
   testParseData \<lparr>error_check_overflow = False\<rparr> = Inr 0x47FFFFFFFFFFAA81"
  by code_simp

subsection \<open>Construction\<close>

lemma map_of_rev_None_iff: "map_of (rev ds) x = None \<longleftrightarrow> x \<notin> fst ` set ds"
  by (simp add: map_of_eq_None_iff)

lemma class_lookup_None_iff: "class_lookup cls x = None \<longleftrightarrow> x \<notin> set (class_names cls)"
proof (induction cls)
  case (user_cls n base ds)
  show ?case
  proof (cases "map_of (rev ds) x")
    case None
    then have "x \<notin> fst ` set ds" by (simp add: map_of_rev_None_iff)
    with None user_cls show ?thesis by simp
  next
    case (Some t)
    then have "x \<in> fst ` set ds"
      using map_of_rev_None_iff [of ds x] by simp
    with Some show ?thesis by simp
  qed
qed simp_all

lemma init_step_declared:
  assumes "class_lookup cls x = Some t" and "x \<notin> set BitField_attrs"
  shows "init_step cfg cls self x = Inr (self\<lparr>partitions := partitions self @ [t\<lparr>name := x\<rparr>]\<rparr>)"
  using assms by (simp add: init_step_def BitField_attrs_def)

lemma init_step_other:
  assumes "class_lookup cls x = None" and "init_step cfg cls self x = Inr self'"
  shows "self' = self"
  using assms by (auto simp add: init_step_def split: if_splits sum.splits)

lemma init_loop_partitions:
  assumes "\<forall>x\<in>set (class_names cls). x \<notin> set BitField_attrs"
    and "init_loop cfg cls xs self = Inr self'"
  shows "map name (partitions self') =
           map name (partitions self) @ filter (\<lambda>x. x \<in> set (class_names cls)) xs \<and>
         (\<forall>p\<in>set (partitions self'). p \<in> set (partitions self) \<or>
            (\<exists>t. class_lookup cls (name p) = Some t \<and> p = t\<lparr>name := name p\<rparr>)) \<and>
         name_bf self' = name_bf self \<and> nbytes self' = nbytes self"
  using assms(2)
proof (induction xs arbitrary: self)
  case Nil
  then show ?case by simp
next
  case (Cons x xs)
  from Cons.prems obtain mid where
    step: "init_step cfg cls self x = Inr mid" and rest: "init_loop cfg cls xs mid = Inr self'"
    by (cases "init_step cfg cls self x") simp_all
  note IH = Cons.IH [OF rest]
  show ?case
  proof (cases "class_lookup cls x")
    case None
    then have "x \<notin> set (class_names cls)" by (simp add: class_lookup_None_iff)
    moreover from init_step_other [OF None step] have "mid = self" .
    ultimately show ?thesis using IH by simp
  next
    case (Some t)
    then have decl: "x \<in> set (class_names cls)"
      using class_lookup_None_iff [of cls x] by simp
    with assms(1) have "x \<notin> set BitField_attrs" by blast
    from init_step_declared [OF Some this, of cfg self] step
    have mid: "mid = self\<lparr>partitions := partitions self @ [t\<lparr>name := x\<rparr>]\<rparr>" by simp
    have new: "class_lookup cls (name (t\<lparr>name := x\<rparr>)) = Some t \<and>
        t\<lparr>name := x\<rparr> = t\<lparr>name := name (t\<lparr>name := x\<rparr>)\<rparr>"
      using Some by simp
    show ?thesis
      using IH decl new by (auto simp add: mid)
  qed
qed

lemma declared_of_dir:
  assumes "\<forall>x\<in>set (class_names cls). x \<notin> set BitField_attrs"
  shows "filter (\<lambda>x. x \<in> set (class_names cls)) (dir_self cls) = sort (remdups (class_names cls))"
proof -
  have "filter (\<lambda>x. x \<in> set (class_names cls)) BitField_attrs = []"
    using assms by (auto simp add: filter_empty_conv)
  then have "filter (\<lambda>x. x \<in> set (class_names cls)) (BitField_attrs @ class_names cls) =
      class_names cls"
    by simp
  then show ?thesis
    by (simp only: dir_self_def filter_sort remdups_filter [symmetric])
qed

lemma ejm_reserved_free:
  "\<forall>x\<in>set (class_names ExtendedJoystickMessage_cls). x \<notin> set BitField_attrs"
  by code_simp

lemma ejm_constructs:
  "\<not> isl (BitField_init \<lparr>error_check_overflow = True\<rparr> ExtendedJoystickMessage_cls ''ExtendedJoystickMessage'' 8)"
  by code_simp

text \<open>
  C3, as the code has it. The constructor walks \<^verbatim>\<open>dir(self)\<close>, which is sorted, so
  for a class that binds no template to an attribute name of \<^verbatim>\<open>BitField\<close> the
  partitions of a constructed record are listed in ascending order of their names
  (strings compared by code point), each name once, and not in declaration order. Each
  partition is the copy of the template bound to its name, with the name filled in.
\<close>

theorem partitions_sorted_by_name:
  assumes "BitField_init cfg cls nm nb = Inr bf"
    and "\<forall>x\<in>set (class_names cls). x \<notin> set BitField_attrs"
  shows "map name (partitions bf) = sort (remdups (class_names cls)) \<and>
         (\<forall>p\<in>set (partitions bf).
            \<exists>t. class_lookup cls (name p) = Some t \<and> p = t\<lparr>name := name p\<rparr>) \<and>
         name_bf bf = nm \<and> nbytes bf = nb"
proof -
  let ?self = "\<lparr>name_bf = nm, nbytes = nb, partitions = []\<rparr>"
  from assms(1) have "init_loop cfg cls (dir_self cls) ?self = Inr bf"
    by (simp add: BitField_init_def split: if_splits)
  from init_loop_partitions [OF assms(2) this] show ?thesis
    by (simp add: declared_of_dir [OF assms(2)])
qed

theorem partitions_sorted_by_name_witness:
  "partition_names (BitField_init \<lparr>error_check_overflow = True\<rparr> ExtendedJoystickMessage_cls
      ''ExtendedJoystickMessage'' 8) =
     Inr (sort (remdups (class_names ExtendedJoystickMessage_cls))) \<and>
   list_all (\<lambda>x. x \<notin> set BitField_attrs) (class_names ExtendedJoystickMessage_cls)"
proof -
  from ejm_constructs obtain bf where
    bf: "BitField_init \<lparr>error_check_overflow = True\<rparr> ExtendedJoystickMessage_cls
      ''ExtendedJoystickMessage'' 8 = Inr bf"
    by (cases "BitField_init \<lparr>error_check_overflow = True\<rparr> ExtendedJoystickMessage_cls
      ''ExtendedJoystickMessage'' 8") simp_all
  from partitions_sorted_by_name [OF bf ejm_reserved_free]
  have "map name (partitions bf) = sort (remdups (class_names ExtendedJoystickMessage_cls))"
    by blast
  then show ?thesis
    using ejm_reserved_free by (simp add: bf partition_names_def list_all_iff)
qed

text \<open>
  C3, as the claim states it, fails on the joystick message of test.py: the constructed
  list begins with \<^verbatim>\<open>a1DetentPositionStatus\<close>, declared sixteenth, and is not the
  list of names in declaration order.
\<close>

theorem declaration_order_counterexample:
  "partition_names (ExtendedJoystickMessage_init \<lparr>error_check_overflow = True\<rparr>) =
     Inr [''a1DetentPositionStatus'', ''a1NegativePositionStatus'', ''a1NeutralPositionStatus'',
          ''a1Position'', ''a1PositivePositionStatus'',
          ''a2DetentPositionStatus'', ''a2NegativePositionStatus'', ''a2NeutralPositionStatus'',
          ''a2Position'', ''a2PositivePositionStatus'',
          ''a3DetentPositionStatus'', ''a3NegativePositionStatus'', ''a3NeutralPositionStatus'',
          ''a3Position'', ''a3PositivePositionStatus'',
          ''axisPadding'', ''b1'', ''b2'', ''b3'', ''b4''] \<and>
   partition_names (ExtendedJoystickMessage_init \<lparr>error_check_overflow = True\<rparr>) \<noteq>
     Inr (map fst ExtendedJoystickMessage_decls)"
  by code_simp

text \<open>
  C4. \<^verbatim>\<open>BitField("x", 1)\<close>, with the flag on: the guard compares the class of the
  instance with \<^verbatim>\<open>BitField.__class__\<close>, which is \<^verbatim>\<open>type\<close>, so it does not fire
  and the abstract base is constructed, with no partitions, under either flag. The
  guard of \<^verbatim>\<open>Int8BitField\<close> is written the same way and lets
  \<^verbatim>\<open>Int8BitField("x")\<close> through as well.
\<close>

theorem abstract_base_is_constructed:
  "BitField_init \<lparr>error_check_overflow = True\<rparr> BitField_cls ''x'' 1 =
     Inr \<lparr>name_bf = ''x'', nbytes = 1, partitions = []\<rparr> \<and>
   BitField_init \<lparr>error_check_overflow = False\<rparr> BitField_cls ''x'' 1 =
     Inr \<lparr>name_bf = ''x'', nbytes = 1, partitions = []\<rparr> \<and>
   Int8BitField_init \<lparr>error_check_overflow = True\<rparr> Int8BitField_cls ''x'' =
     Inr \<lparr>name_bf = ''x'', nbytes = 1, partitions = []\<rparr>"
  by code_simp

end
